theory Spec2Isabelle
  imports Complex_Main "HOL-Library.Multiset" "HOL-Library.Char_ord" "HOL-Library.List_Lexorder"
begin

text \<open>
  The daily word selection and the study session of a vocabulary flashcard
  application: the word counters and the study log of \<^verbatim>\<open>data.js\<close>, the selection
  and the session of \<^verbatim>\<open>quiz.js\<close>, over an explicit state. What the environment
  supplies is a parameter of the operation that reads it: the draws of
  \<^verbatim>\<open>Math.random()\<close>, the date \<^verbatim>\<open>today()\<close> and the time of \<^verbatim>\<open>new Date()\<close>.
\<close>

section \<open>Data model (storage.js, data.js, quiz.js)\<close>

text \<open>
  A word as \<^verbatim>\<open>Data.addWord\<close> builds it. The field \<^verbatim>\<open>id\<close> is called \<open>word_id\<close>
  here (\<open>id\<close> is the identity function of HOL). The two counters start at 0 in
  \<^verbatim>\<open>addWord\<close> and are only ever incremented by one or reset to 0
  (\<^verbatim>\<open>markCorrect\<close>, \<^verbatim>\<open>markWrong\<close>), so they are natural numbers.
\<close>

record word =
  word_id :: string
  japanese :: string
  furigana :: string
  korean :: string
  categoryId :: string
  wrongCount :: nat
  correctStreak :: nat
  createdAt :: string

text \<open>
  The two settings \<^verbatim>\<open>quiz.js\<close> and \<^verbatim>\<open>data.js\<close> read
  (\<^verbatim>\<open>Storage.DEFAULT_SETTINGS\<close> has \<^verbatim>\<open>dailyGoal: 10\<close> and
  \<^verbatim>\<open>graduationStreak: 3\<close>; the settings form accepts every integer from 1 on).
  They are integers: \<^verbatim>\<open>dailyGoal - 2\<close> is negative for \<^verbatim>\<open>dailyGoal = 1\<close>.
\<close>

record settings =
  dailyGoal :: int
  graduationStreak :: int

text \<open>One entry of the study log, \<^verbatim>\<open>{ count, categoryId }\<close>, stored under a date.\<close>

record log_entry =
  log_count :: nat
  log_categoryId :: string

text \<open>One element of \<^verbatim>\<open>session.results\<close>: \<^verbatim>\<open>{ wordId, correct }\<close>.\<close>

record answer_result =
  wordId :: string
  correct :: bool

text \<open>The module variable \<^verbatim>\<open>session\<close> of \<^verbatim>\<open>quiz.js\<close> (\<^verbatim>\<open>null\<close> is \<open>None\<close>).\<close>

record quiz_session =
  session_categoryId :: string
  words :: "word list"
  currentIndex :: nat
  results :: "answer_result list"
  isFlipped :: bool
  startedAt :: string

text \<open>
  The state the operations read and write: the three stored values
  (\<^verbatim>\<open>vocab_words\<close>, \<^verbatim>\<open>vocab_study_log\<close>, \<^verbatim>\<open>vocab_settings\<close>) and the session
  variable. The study log is an object keyed by date, a map. Writes to the store
  are taken to succeed (\<^verbatim>\<open>Storage.set\<close> swallows a failed write).
\<close>

record state =
  vocab_words :: "word list"
  vocab_study_log :: "string \<rightharpoonup> log_entry"
  vocab_settings :: settings
  session :: "quiz_session option"

text \<open>The value \<^verbatim>\<open>_next\<close> returns: \<^verbatim>\<open>{ done, index, total }\<close>.\<close>

record next_info =
  done_flag :: bool
  index :: nat
  total :: nat


section \<open>Built-ins of the language\<close>

text \<open>
  \<^verbatim>\<open>Array.prototype.slice(start, end)\<close>: a negative bound counts from the end of
  the array, and both bounds are clamped to the array.
\<close>

definition slice :: "'a list \<Rightarrow> int \<Rightarrow> int \<Rightarrow> 'a list" where
  "slice xs s e =
     (let len = int (length xs);
          k = (if s < 0 then max (len + s) 0 else min s len);
          final = (if e < 0 then max (len + e) 0 else min e len)
      in take (nat (final - k)) (drop (nat k) xs))"

text \<open>
  \<^verbatim>\<open>Array.prototype.sort(cmp)\<close> is a stable sort: \<open>x\<close> stays before \<open>y\<close> unless
  \<^verbatim>\<open>cmp(x, y) > 0\<close>. Insertion from the right computes that order.
\<close>

fun insert_by :: "('a \<Rightarrow> 'a \<Rightarrow> int) \<Rightarrow> 'a \<Rightarrow> 'a list \<Rightarrow> 'a list" where
  "insert_by cmp x [] = [x]"
| "insert_by cmp x (y # ys) =
     (if cmp x y \<le> 0 then x # y # ys else y # insert_by cmp x ys)"

definition sort_by :: "('a \<Rightarrow> 'a \<Rightarrow> int) \<Rightarrow> 'a list \<Rightarrow> 'a list" where
  "sort_by cmp xs = foldr (insert_by cmp) xs []"

text \<open>
  The strings \<^verbatim>\<open>createdAt\<close> holds: \<^verbatim>\<open>today()\<close> writes a date as \<^verbatim>\<open>YYYY-MM-DD\<close>, four
  digits, a hyphen, two digits, a hyphen, two digits.
\<close>

definition is_digit :: "char \<Rightarrow> bool" where
  "is_digit c \<longleftrightarrow> CHR ''0'' \<le> c \<and> c \<le> CHR ''9''"

definition iso_date :: "string \<Rightarrow> bool" where
  "iso_date s \<longleftrightarrow>
     length s = 10 \<and> s ! 4 = CHR ''-'' \<and> s ! 7 = CHR ''-''
     \<and> list_all is_digit (take 4 s @ take 2 (drop 5 s) @ take 2 (drop 8 s))"

text \<open>
  \<^verbatim>\<open>String.prototype.localeCompare\<close> on such dates. The collation of the language
  orders two dates as their characters do, position by position, and that order
  is the definition. On other strings the collation is another order (it puts
  \<^verbatim>\<open>a\<close> before \<^verbatim>\<open>B\<close>, the characters do not), so a statement about the order of
  \<^verbatim>\<open>createdAt\<close> is made for stores whose \<^verbatim>\<open>createdAt\<close> are all dates
  (\<open>iso_date\<close>). Lengths, membership and multiplicities of the selection do not
  depend on the comparison.
\<close>

definition localeCompare :: "string \<Rightarrow> string \<Rightarrow> int" where
  "localeCompare a b = (if a < b then - 1 else if a = b then 0 else 1)"

text \<open>\<^verbatim>\<open>Array.prototype.findIndex\<close>; \<open>None\<close> is the result \<^verbatim>\<open>-1\<close>.\<close>

fun findIndex :: "('a \<Rightarrow> bool) \<Rightarrow> 'a list \<Rightarrow> nat option" where
  "findIndex P [] = None"
| "findIndex P (x # xs) = (if P x then Some 0 else map_option Suc (findIndex P xs))"

text \<open>
  \<^verbatim>\<open>Math.random()\<close> returns a number \<open>u\<close> with \<open>0 \<le> u < 1\<close>; a draw is such a
  number. \<^verbatim>\<open>Math.floor(Math.random() * (i + 1))\<close> is \<open>random_index u (i + 1)\<close>.
\<close>

typedef draw = "{u :: rat. 0 \<le> u \<and> u < 1}"
  by (rule exI [of _ 0]) simp

setup_lifting type_definition_draw

lift_definition draw_zero :: draw is "0 :: rat"
  by simp

lift_definition draw_half :: draw is "1 / 2 :: rat"
  by simp

definition random_index :: "draw \<Rightarrow> nat \<Rightarrow> nat" where
  "random_index u n = nat \<lfloor>Rep_draw u * of_nat n\<rfloor>"

section \<open>data.js\<close>

definition getWords :: "state \<Rightarrow> word list" where
  "getWords st = vocab_words st"

definition getWordsByCategory :: "string \<Rightarrow> state \<Rightarrow> word list" where
  "getWordsByCategory cid st = filter (\<lambda>w. categoryId w = cid) (getWords st)"

definition getWrongWords :: "state \<Rightarrow> word list" where
  "getWrongWords st =
     sort_by (\<lambda>a b. int (wrongCount b) - int (wrongCount a))
       (filter (\<lambda>w. wrongCount w \<ge> 1) (getWords st))"

definition getWordById :: "string \<Rightarrow> state \<Rightarrow> word option" where
  "getWordById i st = find (\<lambda>w. word_id w = i) (getWords st)"

definition markCorrect :: "string \<Rightarrow> state \<Rightarrow> state" where
  "markCorrect i st =
     (let ws = getWords st in
      case findIndex (\<lambda>w. word_id w = i) ws of
        None \<Rightarrow> st
      | Some idx \<Rightarrow>
          let w0 = ws ! idx;
              w1 = w0\<lparr>correctStreak := correctStreak w0 + 1\<rparr>;
              w2 = (if wrongCount w1 > 0
                       \<and> int (correctStreak w1) \<ge> graduationStreak (vocab_settings st)
                    then w1\<lparr>wrongCount := 0, correctStreak := 0\<rparr> else w1)
          in st\<lparr>vocab_words := ws[idx := w2]\<rparr>)"

definition markWrong :: "string \<Rightarrow> state \<Rightarrow> state" where
  "markWrong i st =
     (let ws = getWords st in
      case findIndex (\<lambda>w. word_id w = i) ws of
        None \<Rightarrow> st
      | Some idx \<Rightarrow>
          let w0 = ws ! idx;
              w1 = w0\<lparr>wrongCount := wrongCount w0 + 1\<rparr>;
              w2 = w1\<lparr>correctStreak := 0\<rparr>
          in st\<lparr>vocab_words := ws[idx := w2]\<rparr>)"

text \<open>
  \<^verbatim>\<open>recordStudy(count, categoryId)\<close>; \<open>today\<close> is what \<^verbatim>\<open>today()\<close> returns at the
  call. \<^verbatim>\<open>prev.categoryId || categoryId\<close> takes the second value when the first is
  the empty string.
\<close>

definition recordStudy :: "string \<Rightarrow> nat \<Rightarrow> string \<Rightarrow> state \<Rightarrow> state" where
  "recordStudy today n cid st =
     (let log = vocab_study_log st;
          prev = (case log today of
                    Some e \<Rightarrow> e
                  | None \<Rightarrow> \<lparr>log_count = 0, log_categoryId = cid\<rparr>)
      in st\<lparr>vocab_study_log := log(today \<mapsto>
            \<lparr>log_count = log_count prev + n,
             log_categoryId =
               (if log_categoryId prev \<noteq> [] then log_categoryId prev else cid)\<rparr>)\<rparr>)"

section \<open>quiz.js\<close>

text \<open>
  \<^verbatim>\<open>shuffle\<close>: the loop runs \<open>i\<close> from \<^verbatim>\<open>result.length - 1\<close> down to 1;
  \<open>rnd k\<close> is the value of the \<open>k\<close>-th call of \<^verbatim>\<open>Math.random()\<close>.
\<close>

fun shuffle_loop :: "(nat \<Rightarrow> draw) \<Rightarrow> nat \<Rightarrow> nat \<Rightarrow> 'a list \<Rightarrow> 'a list" where
  "shuffle_loop rnd k 0 xs = xs"
| "shuffle_loop rnd k (Suc i) xs =
     (let j = random_index (rnd k) (Suc i + 1)
      in shuffle_loop rnd (Suc k) i (xs[Suc i := xs ! j, j := xs ! Suc i]))"

definition shuffle :: "(nat \<Rightarrow> draw) \<Rightarrow> 'a list \<Rightarrow> 'a list" where
  "shuffle rnd arr = shuffle_loop rnd 0 (length arr - 1) arr"

definition buildDailyWords :: "(nat \<Rightarrow> draw) \<Rightarrow> string \<Rightarrow> state \<Rightarrow> word list" where
  "buildDailyWords rnd cid st =
     (let goal = dailyGoal (vocab_settings st);
          maxWrong = goal - 2
      in if cid = ''wrong'' then slice (shuffle rnd (getWrongWords st)) 0 goal
         else
           let allWords = (if cid = ''all'' then getWords st else getWordsByCategory cid st);
               wrongWords =
                 slice (sort_by (\<lambda>a b. int (wrongCount b) - int (wrongCount a))
                          (filter (\<lambda>w. wrongCount w \<ge> 1) allWords)) 0 maxWrong;
               wrongIds = set (map word_id wrongWords);
               newWords =
                 sort_by (\<lambda>a b. localeCompare (createdAt a) (createdAt b))
                   (filter (\<lambda>w. wrongCount w = 0 \<and> word_id w \<notin> wrongIds) allWords);
               newCount = goal - int (length wrongWords);
               selected = wrongWords @ slice newWords 0 newCount
           in shuffle rnd selected)"


definition clearSession :: "state \<Rightarrow> state" where
  "clearSession st = st\<lparr>session := None\<rparr>"

text \<open>\<^verbatim>\<open>session.words[session.currentIndex] || null\<close>: past the end there is no word.\<close>

definition currentWord :: "state \<Rightarrow> word option" where
  "currentWord st =
     (case session st of
        None \<Rightarrow> None
      | Some s \<Rightarrow>
          if currentIndex s < length (words s) then Some (words s ! currentIndex s) else None)"


text \<open>\<^verbatim>\<open>_finishSession\<close>, called by \<^verbatim>\<open>_next\<close> with the session \<open>s\<close> in place.\<close>

definition finishSession :: "string \<Rightarrow> quiz_session \<Rightarrow> state \<Rightarrow> state" where
  "finishSession today s st = recordStudy today (length (results s)) (session_categoryId s) st"

text \<open>
  \<^verbatim>\<open>_next\<close>. Both callers have checked that the session exists; without one the
  JavaScript would throw, which is \<open>None\<close> with the state as it was.
\<close>

definition next_card :: "string \<Rightarrow> state \<Rightarrow> next_info option \<times> state" where
  "next_card today st =
     (case session st of
        None \<Rightarrow> (None, st)
      | Some s0 \<Rightarrow>
          let s = s0\<lparr>isFlipped := False, currentIndex := currentIndex s0 + 1\<rparr>;
              st1 = st\<lparr>session := Some s\<rparr>;
              dn = (currentIndex s \<ge> length (words s));
              st2 = (if dn then finishSession today s st1 else st1)
          in (Some \<lparr>done_flag = dn, index = currentIndex s, total = length (words s)\<rparr>, st2))"

definition push_result :: "string \<Rightarrow> bool \<Rightarrow> state \<Rightarrow> state" where
  "push_result i c st =
     (case session st of
        None \<Rightarrow> st
      | Some s \<Rightarrow> st\<lparr>session := Some (s\<lparr>results := results s @ [\<lparr>wordId = i, correct = c\<rparr>]\<rparr>)\<rparr>)"

definition answerCorrect :: "string \<Rightarrow> state \<Rightarrow> next_info option \<times> state" where
  "answerCorrect today st =
     (case session st of
        None \<Rightarrow> (None, st)
      | Some s \<Rightarrow>
          (case currentWord st of
             None \<Rightarrow> (None, st)
           | Some w \<Rightarrow>
               next_card today (push_result (word_id w) True (markCorrect (word_id w) st))))"

definition answerWrong :: "string \<Rightarrow> state \<Rightarrow> next_info option \<times> state" where
  "answerWrong today st =
     (case session st of
        None \<Rightarrow> (None, st)
      | Some s \<Rightarrow>
          (case currentWord st of
             None \<Rightarrow> (None, st)
           | Some w \<Rightarrow>
               next_card today (push_result (word_id w) False (markWrong (word_id w) st))))"

section \<open>Concrete draws\<close>

definition rnd_zero :: "nat \<Rightarrow> draw" where
  "rnd_zero k = draw_zero"

definition rnd_half :: "nat \<Rightarrow> draw" where
  "rnd_half k = draw_half"

section \<open>The words in scope and the values \<^verbatim>\<open>buildDailyWords\<close> computes on the way\<close>

text \<open>\<^verbatim>\<open>allWords\<close> of \<^verbatim>\<open>buildDailyWords\<close>: the pool of the scope.\<close>

definition scopeWords :: "string \<Rightarrow> state \<Rightarrow> word list" where
  "scopeWords cid st = (if cid = ''all'' then getWords st else getWordsByCategory cid st)"

text \<open>\<^verbatim>\<open>wrongWords\<close>, \<^verbatim>\<open>newWords\<close> and \<^verbatim>\<open>newCount\<close> of \<^verbatim>\<open>buildDailyWords\<close>.\<close>

definition wrongWords :: "int \<Rightarrow> word list \<Rightarrow> word list" where
  "wrongWords goal allWords =
     slice (sort_by (\<lambda>a b. int (wrongCount b) - int (wrongCount a))
              (filter (\<lambda>w. wrongCount w \<ge> 1) allWords)) 0 (goal - 2)"

definition newWords :: "int \<Rightarrow> word list \<Rightarrow> word list" where
  "newWords goal allWords =
     sort_by (\<lambda>a b. localeCompare (createdAt a) (createdAt b))
       (filter (\<lambda>w. wrongCount w = 0 \<and> word_id w \<notin> set (map word_id (wrongWords goal allWords)))
          allWords)"

definition newCount :: "int \<Rightarrow> word list \<Rightarrow> int" where
  "newCount goal allWords = goal - int (length (wrongWords goal allWords))"

text \<open>A run of answers, \<open>True\<close> for \<^verbatim>\<open>answerCorrect\<close> and \<open>False\<close> for \<^verbatim>\<open>answerWrong\<close>.\<close>

fun answers :: "string \<Rightarrow> bool list \<Rightarrow> state \<Rightarrow> state" where
  "answers today [] st = st"
| "answers today (b # bs) st =
     answers today bs (snd (if b then answerCorrect today st else answerWrong today st))"

section \<open>What a frame condition on the word store says\<close>

text \<open>Two words that differ at most in \<^verbatim>\<open>wrongCount\<close> and \<^verbatim>\<open>correctStreak\<close>.\<close>

definition same_except_counters :: "word \<Rightarrow> word \<Rightarrow> bool" where
  "same_except_counters a b \<longleftrightarrow>
     word_id a = word_id b \<and> japanese a = japanese b \<and> furigana a = furigana b
     \<and> korean a = korean b \<and> categoryId a = categoryId b \<and> createdAt a = createdAt b"

text \<open>
  Between \<open>st\<close> and \<open>st'\<close> nothing changed but the counters of the word at \<open>idx\<close>.
\<close>

definition only_word_changed :: "nat \<Rightarrow> state \<Rightarrow> state \<Rightarrow> bool" where
  "only_word_changed idx st st' \<longleftrightarrow>
     vocab_study_log st' = vocab_study_log st \<and> vocab_settings st' = vocab_settings st
     \<and> session st' = session st
     \<and> length (vocab_words st') = length (vocab_words st)
     \<and> (\<forall>j. j \<noteq> idx \<longrightarrow> vocab_words st' ! j = vocab_words st ! j)
     \<and> same_except_counters (vocab_words st' ! idx) (vocab_words st ! idx)"

section \<open>Example data\<close>

definition demo_word :: "string \<Rightarrow> string \<Rightarrow> nat \<Rightarrow> nat \<Rightarrow> string \<Rightarrow> word" where
  "demo_word i c wc cs d =
     \<lparr>word_id = i, japanese = ''taberu'', furigana = ''taberu'', korean = ''meokda'',
      categoryId = c, wrongCount = wc, correctStreak = cs, createdAt = d\<rparr>"

definition demo_words :: "word list" where
  "demo_words =
     [demo_word ''w1'' ''c1'' 2 0 ''2024-03-01'',
      demo_word ''w2'' ''c1'' 0 0 ''2024-03-05'',
      demo_word ''w3'' ''c2'' 5 0 ''2024-03-02'',
      demo_word ''w4'' ''c1'' 0 1 ''2024-03-03'',
      demo_word ''w5'' ''c1'' 0 0 ''2024-03-04'',
      demo_word ''w6'' ''c1'' 3 1 ''2024-03-04'']"

definition demo_state :: state where
  "demo_state =
     \<lparr>vocab_words = demo_words,
      vocab_study_log = [''2024-03-10'' \<mapsto> \<lparr>log_count = 5, log_categoryId = ''c1''\<rparr>],
      vocab_settings = \<lparr>dailyGoal = 4, graduationStreak = 3\<rparr>,
      session = None\<rparr>"

definition demo_session :: quiz_session where
  "demo_session =
     \<lparr>session_categoryId = ''all'',
      words = [demo_word ''w3'' ''c2'' 5 0 ''2024-03-02'', demo_word ''w4'' ''c1'' 0 1 ''2024-03-03''],
      currentIndex = 0, results = [], isFlipped = False,
      startedAt = ''2024-03-10T09:00:00.000Z''\<rparr>"

definition demo_active_state :: state where
  "demo_active_state = demo_state\<lparr>session := Some demo_session\<rparr>"

text \<open>A store in which every word is in the wrong pool.\<close>

definition wrong_only_words :: "word list" where
  "wrong_only_words =
     [demo_word ''a'' ''c1'' 5 0 ''2024-03-01'',
      demo_word ''b'' ''c1'' 3 0 ''2024-03-02'',
      demo_word ''c'' ''c1'' 4 0 ''2024-03-03'']"

definition quota_state :: state where
  "quota_state =
     \<lparr>vocab_words = wrong_only_words, vocab_study_log = Map.empty,
      vocab_settings = \<lparr>dailyGoal = 3, graduationStreak = 3\<rparr>, session = None\<rparr>"

definition goal_one_state :: state where
  "goal_one_state =
     \<lparr>vocab_words = wrong_only_words, vocab_study_log = Map.empty,
      vocab_settings = \<lparr>dailyGoal = 1, graduationStreak = 3\<rparr>, session = None\<rparr>"

section \<open>Sorting, slicing and shuffling\<close>

lemma insert_by_insort_key:
  assumes "\<And>a b. (cmp a b \<le> 0) = (f a \<le> f b)"
  shows "insert_by cmp x ys = insort_key f x ys"
  by (induction ys) (simp_all add: assms)

lemma sort_by_sort_key:
  assumes "\<And>a b. (cmp a b \<le> 0) = (f a \<le> f b)"
  shows "sort_by cmp xs = sort_key f xs"
  by (induction xs) (simp_all add: sort_by_def insert_by_insort_key [OF assms])

lemma sort_by_wrongCount:
  "sort_by (\<lambda>a b. int (wrongCount b) - int (wrongCount a)) xs
     = sort_key (\<lambda>w. - int (wrongCount w)) xs"
  by (rule sort_by_sort_key) auto

lemma sort_by_createdAt:
  "sort_by (\<lambda>a b. localeCompare (createdAt a) (createdAt b)) xs = sort_key createdAt xs"
  by (rule sort_by_sort_key) (auto simp: localeCompare_def)

lemma slice_0: "slice xs 0 e = take (if e < 0 then length xs - nat (- e) else nat e) xs"
  by (auto simp: slice_def Let_def max_def min_def intro: arg_cong2 [of _ _ _ _ take])

lemma random_index_less: "0 < n \<Longrightarrow> random_index u n < n"
proof -
  assume n: "0 < n"
  have u: "0 \<le> Rep_draw u" "Rep_draw u < 1" using Rep_draw [of u] by auto
  have "Rep_draw u * of_nat n < of_nat n" using u n by simp
  then have "\<lfloor>Rep_draw u * of_nat n\<rfloor> < int n"
    by (simp add: floor_less_iff)
  moreover have "0 \<le> \<lfloor>Rep_draw u * of_nat n\<rfloor>" using u by simp
  ultimately show ?thesis by (simp add: random_index_def nat_less_iff)
qed

lemma random_index_zero: "random_index draw_zero n = 0"
  by (simp add: random_index_def draw_zero.rep_eq)

lemma random_index_half: "random_index draw_half n = n div 2"
proof -
  have "Rep_draw draw_half * of_nat n = (of_nat n :: rat) / of_nat 2"
    by (simp add: draw_half.rep_eq)
  moreover have "\<lfloor>(of_nat n :: rat) / of_nat 2\<rfloor> = int (n div 2)"
    by (rule floor_divide_of_nat_eq)
  ultimately have "\<lfloor>Rep_draw draw_half * of_nat n\<rfloor> = int (n div 2)"
    by (simp only:)
  then show ?thesis by (simp add: random_index_def)
qed

lemma mset_shuffle_loop:
  "i < length xs \<Longrightarrow> mset (shuffle_loop rnd k i xs) = mset xs"
proof (induction i arbitrary: k xs)
  case 0
  then show ?case by simp
next
  case (Suc i)
  let ?j = "random_index (rnd k) (Suc i + 1)"
  have j: "?j < length xs" using random_index_less [of "Suc i + 1" "rnd k"] Suc.prems by simp
  have "mset (xs[Suc i := xs ! ?j, ?j := xs ! Suc i]) = mset xs"
    using mset_swap [OF j Suc.prems] .
  with Suc.IH [of "xs[Suc i := xs ! ?j, ?j := xs ! Suc i]" "Suc k"] Suc.prems
  show ?case by (simp add: Let_def)
qed

lemma mset_shuffle: "mset (shuffle rnd xs) = mset xs"
  by (cases xs) (simp_all add: shuffle_def mset_shuffle_loop)

lemma set_shuffle: "set (shuffle rnd xs) = set xs"
  using mset_shuffle [of rnd xs] by (metis set_mset_mset)

lemma length_shuffle: "length (shuffle rnd xs) = length xs"
  using mset_shuffle [of rnd xs] by (metis size_mset)

lemma buildDailyWords_wrong:
  "buildDailyWords rnd ''wrong'' st
     = slice (shuffle rnd (getWrongWords st)) 0 (dailyGoal (vocab_settings st))"
  by (simp add: buildDailyWords_def Let_def)

lemma buildDailyWords_scope:
  "cid \<noteq> ''wrong'' \<Longrightarrow>
   buildDailyWords rnd cid st =
     shuffle rnd
       (wrongWords (dailyGoal (vocab_settings st)) (scopeWords cid st)
        @ slice (newWords (dailyGoal (vocab_settings st)) (scopeWords cid st)) 0
            (newCount (dailyGoal (vocab_settings st)) (scopeWords cid st)))"
  by (simp add: buildDailyWords_def Let_def scopeWords_def wrongWords_def newWords_def
      newCount_def)

section \<open>Worked examples\<close>

lemma shuffle_single: "shuffle rnd [x] = [x]"
  by (simp add: shuffle_def)

lemma wrong_only_wrongWords_3:
  "wrongWords 3 wrong_only_words = [demo_word ''a'' ''c1'' 5 0 ''2024-03-01'']"
  by (simp add: wrongWords_def slice_def sort_by_def wrong_only_words_def demo_word_def)

lemma wrong_only_newWords: "newWords g wrong_only_words = []"
  by (simp add: newWords_def sort_by_def wrong_only_words_def demo_word_def)

lemma wrong_only_wrongWords_1:
  "wrongWords 1 wrong_only_words
     = [demo_word ''a'' ''c1'' 5 0 ''2024-03-01'', demo_word ''c'' ''c1'' 4 0 ''2024-03-03'']"
  by (simp add: wrongWords_def slice_def sort_by_def wrong_only_words_def demo_word_def)

lemma slice_Nil: "slice [] s e = []"
  by (simp add: slice_def)

lemma quota_state_all:
  "buildDailyWords rnd ''all'' quota_state = [demo_word ''a'' ''c1'' 5 0 ''2024-03-01'']"
proof -
  have "scopeWords ''all'' quota_state = wrong_only_words"
    by (simp add: scopeWords_def getWords_def quota_state_def)
  moreover have "dailyGoal (vocab_settings quota_state) = 3" by (simp add: quota_state_def)
  ultimately show ?thesis
    by (simp add: buildDailyWords_scope wrong_only_wrongWords_3 wrong_only_newWords slice_Nil
        shuffle_single)
qed

lemma goal_one_state_all:
  "buildDailyWords rnd_zero ''all'' goal_one_state
     = [demo_word ''c'' ''c1'' 4 0 ''2024-03-03'', demo_word ''a'' ''c1'' 5 0 ''2024-03-01'']"
proof -
  have "scopeWords ''all'' goal_one_state = wrong_only_words"
    by (simp add: scopeWords_def getWords_def goal_one_state_def)
  moreover have "dailyGoal (vocab_settings goal_one_state) = 1" by (simp add: goal_one_state_def)
  moreover have "shuffle rnd_zero [demo_word ''a'' ''c1'' 5 0 ''2024-03-01'', demo_word ''c'' ''c1'' 4 0 ''2024-03-03'']
     = [demo_word ''c'' ''c1'' 4 0 ''2024-03-03'', demo_word ''a'' ''c1'' 5 0 ''2024-03-01'']"
    by (simp add: shuffle_def rnd_zero_def random_index_zero)
  ultimately show ?thesis
    by (simp add: buildDailyWords_scope wrong_only_wrongWords_1 wrong_only_newWords slice_Nil)
qed

lemma demo_wrongWords:
  "wrongWords 4 demo_words
     = [demo_word ''w3'' ''c2'' 5 0 ''2024-03-02'', demo_word ''w6'' ''c1'' 3 1 ''2024-03-04'']"
  by (simp add: wrongWords_def slice_def sort_by_def demo_words_def demo_word_def)

lemma demo_newWords_raw:
  "filter (\<lambda>w. wrongCount w = 0 \<and> word_id w \<notin> set (map word_id (wrongWords 4 demo_words))) demo_words
     = [demo_word ''w2'' ''c1'' 0 0 ''2024-03-05'', demo_word ''w4'' ''c1'' 0 1 ''2024-03-03'',
        demo_word ''w5'' ''c1'' 0 0 ''2024-03-04'']"
  unfolding demo_wrongWords by (simp add: demo_words_def demo_word_def)

lemma demo_newWords:
  "newWords 4 demo_words
     = [demo_word ''w4'' ''c1'' 0 1 ''2024-03-03'', demo_word ''w5'' ''c1'' 0 0 ''2024-03-04'',
        demo_word ''w2'' ''c1'' 0 0 ''2024-03-05'']"
  unfolding newWords_def demo_newWords_raw
  by (simp add: sort_by_def demo_word_def localeCompare_def)

lemma demo_state_all:
  "buildDailyWords rnd_half ''all'' demo_state
     = [demo_word ''w3'' ''c2'' 5 0 ''2024-03-02'', demo_word ''w5'' ''c1'' 0 0 ''2024-03-04'',
        demo_word ''w6'' ''c1'' 3 1 ''2024-03-04'', demo_word ''w4'' ''c1'' 0 1 ''2024-03-03'']"
proof -
  have "scopeWords ''all'' demo_state = demo_words"
    by (simp add: scopeWords_def getWords_def demo_state_def)
  moreover have "dailyGoal (vocab_settings demo_state) = 4" by (simp add: demo_state_def)
  moreover have "newCount 4 demo_words = 2" by (simp add: newCount_def demo_wrongWords)
  moreover have "slice (newWords 4 demo_words) 0 2
     = [demo_word ''w4'' ''c1'' 0 1 ''2024-03-03'', demo_word ''w5'' ''c1'' 0 0 ''2024-03-04'']"
    unfolding demo_newWords by (simp add: slice_def)
  moreover have "shuffle rnd_half
       [demo_word ''w3'' ''c2'' 5 0 ''2024-03-02'', demo_word ''w6'' ''c1'' 3 1 ''2024-03-04'',
        demo_word ''w4'' ''c1'' 0 1 ''2024-03-03'', demo_word ''w5'' ''c1'' 0 0 ''2024-03-04'']
     = [demo_word ''w3'' ''c2'' 5 0 ''2024-03-02'', demo_word ''w5'' ''c1'' 0 0 ''2024-03-04'',
        demo_word ''w6'' ''c1'' 3 1 ''2024-03-04'', demo_word ''w4'' ''c1'' 0 1 ''2024-03-03'']"
    by (simp add: shuffle_def rnd_half_def random_index_half)
  ultimately show ?thesis
    by (simp add: buildDailyWords_scope demo_wrongWords)
qed

lemma demo_state_wrong:
  "buildDailyWords rnd_half ''wrong'' demo_state
     = [demo_word ''w3'' ''c2'' 5 0 ''2024-03-02'', demo_word ''w1'' ''c1'' 2 0 ''2024-03-01'',
        demo_word ''w6'' ''c1'' 3 1 ''2024-03-04'']"
proof -
  have "getWrongWords demo_state
     = [demo_word ''w3'' ''c2'' 5 0 ''2024-03-02'', demo_word ''w6'' ''c1'' 3 1 ''2024-03-04'',
        demo_word ''w1'' ''c1'' 2 0 ''2024-03-01'']"
    by (simp add: getWrongWords_def getWords_def sort_by_def demo_state_def demo_words_def
        demo_word_def)
  moreover have "shuffle rnd_half
       [demo_word ''w3'' ''c2'' 5 0 ''2024-03-02'', demo_word ''w6'' ''c1'' 3 1 ''2024-03-04'',
        demo_word ''w1'' ''c1'' 2 0 ''2024-03-01'']
     = [demo_word ''w3'' ''c2'' 5 0 ''2024-03-02'', demo_word ''w1'' ''c1'' 2 0 ''2024-03-01'',
        demo_word ''w6'' ''c1'' 3 1 ''2024-03-04'']"
    by (simp add: shuffle_def rnd_half_def random_index_half)
  moreover have "dailyGoal (vocab_settings demo_state) = 4" by (simp add: demo_state_def)
  ultimately show ?thesis
    by (simp add: buildDailyWords_wrong slice_def)
qed

lemma demo_scope_all: "scopeWords ''all'' demo_state = demo_words"
  by (simp add: scopeWords_def getWords_def demo_state_def)

lemma demo_goal: "dailyGoal (vocab_settings demo_state) = 4"
  by (simp add: demo_state_def)

lemma demo_distinct: "distinct (map word_id (vocab_words demo_state))"
  by (simp add: demo_state_def demo_words_def demo_word_def)

lemma all_not_wrong: "''all'' \<noteq> ''wrong''"
  by simp

lemma demo_getWordById_w1:
  "getWordById ''w1'' demo_state = Some (demo_word ''w1'' ''c1'' 2 0 ''2024-03-01'')"
  by (simp add: getWordById_def getWords_def demo_state_def demo_words_def demo_word_def)

lemma demo_active_session: "session demo_active_state = Some demo_session"
  by (simp add: demo_active_state_def)

section \<open>Daily selection\<close>

lemma wrongWords_take:
  "wrongWords g pool = take (if g - 2 < 0 then length (filter (\<lambda>w. wrongCount w \<ge> 1) pool) - nat (2 - g) else nat (g - 2))
      (sort_key (\<lambda>w. - int (wrongCount w)) (filter (\<lambda>w. wrongCount w \<ge> 1) pool))"
  by (simp add: wrongWords_def slice_0 sort_by_wrongCount)

lemma set_wrongWords: "set (wrongWords g pool) \<subseteq> {w \<in> set pool. wrongCount w \<ge> 1}"
  unfolding wrongWords_take using set_take_subset [of _ "sort_key (\<lambda>w. - int (wrongCount w)) (filter (\<lambda>w. wrongCount w \<ge> 1) pool)"]
  by (auto dest!: in_set_takeD)

lemma newWords_distinct_ids:
  assumes "distinct (map word_id pool)"
  shows "newWords g pool = sort_key createdAt (filter (\<lambda>w. wrongCount w = 0) pool)"
proof -
  have "\<And>w. w \<in> set pool \<Longrightarrow> wrongCount w = 0 \<Longrightarrow> word_id w \<notin> set (map word_id (wrongWords g pool))"
  proof
    fix w assume w: "w \<in> set pool" "wrongCount w = 0"
      and "word_id w \<in> set (map word_id (wrongWords g pool))"
    then obtain v where v: "v \<in> set (wrongWords g pool)" "word_id v = word_id w" by auto
    then have "v \<in> set pool" "wrongCount v \<ge> 1" using set_wrongWords [of g pool] by auto
    with assms w v have "v = w" by (meson distinct_map inj_on_def)
    with w \<open>wrongCount v \<ge> 1\<close> show False by simp
  qed
  then have "filter (\<lambda>w. wrongCount w = 0 \<and> word_id w \<notin> set (map word_id (wrongWords g pool))) pool
     = filter (\<lambda>w. wrongCount w = 0) pool"
    by (intro filter_cong) auto
  then show ?thesis by (simp add: newWords_def sort_by_createdAt)
qed

lemma length_pool_split:
  "length (filter (\<lambda>w. wrongCount w \<ge> 1) pool) + length (filter (\<lambda>w. wrongCount w = 0) pool) = length pool"
  by (induction pool) auto

lemma scopeWords_distinct:
  "distinct (map word_id (vocab_words st)) \<Longrightarrow> distinct (map word_id (scopeWords cid st))"
  by (simp add: scopeWords_def getWords_def getWordsByCategory_def distinct_map_filter)

lemma quota_arith:
  fixes W N k :: nat
  shows "int (min W k + min N (k + 2 - min W k))
     = (if int W \<le> int k then min (int k + 2) (int (W + N)) else int k + min 2 (int N))"
  by (cases "W \<le> k"; simp add: min_def; arith)

text \<open>
  Claim C1 (quota). As stated, the length is \<^verbatim>\<open>dailyGoal\<close> whenever the pool has at
  least that many words, and the pool size otherwise. The code reserves two places
  for words with \<^verbatim>\<open>wrongCount = 0\<close> and takes at most \<^verbatim>\<open>dailyGoal - 2\<close> words of the
  wrong pool, so the claim holds as amended: for scope \<^verbatim>\<open>all\<close> or a category,
  \<^verbatim>\<open>dailyGoal \<ge> 2\<close> and a store whose word ids are unique, the length is
  \<open>min dailyGoal |pool|\<close> when at most \<^verbatim>\<open>dailyGoal - 2\<close> words of the pool have
  \<^verbatim>\<open>wrongCount \<ge> 1\<close>, and \<open>(dailyGoal - 2) + min 2 n\<close> otherwise, where \<open>n\<close> is the
  number of words of the pool with \<^verbatim>\<open>wrongCount = 0\<close>.
\<close>

theorem buildDailyWords_length:
  assumes "cid \<noteq> ''wrong''" and "2 \<le> dailyGoal (vocab_settings st)"
    and "distinct (map word_id (vocab_words st))"
  shows "int (length (buildDailyWords rnd cid st)) =
     (if int (length (filter (\<lambda>w. wrongCount w \<ge> 1) (scopeWords cid st)))
           \<le> dailyGoal (vocab_settings st) - 2
      then min (dailyGoal (vocab_settings st)) (int (length (scopeWords cid st)))
      else dailyGoal (vocab_settings st) - 2
           + min 2 (int (length (filter (\<lambda>w. wrongCount w = 0) (scopeWords cid st)))))"
proof -
  let ?g = "dailyGoal (vocab_settings st)"
  let ?pool = "scopeWords cid st"
  let ?W = "length (filter (\<lambda>w. wrongCount w \<ge> 1) ?pool)"
  let ?N = "length (filter (\<lambda>w. wrongCount w = 0) ?pool)"
  define k where "k = nat (?g - 2)"
  have k: "?g = int k + 2" using assms(2) by (simp add: k_def)
  have d: "distinct (map word_id ?pool)" using assms(3) by (rule scopeWords_distinct)
  have lw: "length (wrongWords ?g ?pool) = min ?W k"
    by (simp add: wrongWords_take k)
  have ln: "length (newWords ?g ?pool) = ?N"
    by (simp add: newWords_distinct_ids [OF d])
  have nc: "newCount ?g ?pool = int (k + 2 - min ?W k)"
    unfolding newCount_def lw by (simp add: k min_def)
  have "length (slice (newWords ?g ?pool) 0 (newCount ?g ?pool)) = min ?N (k + 2 - min ?W k)"
    by (simp add: slice_0 nc ln del: of_nat_diff of_nat_add of_nat_min)
  then have "length (buildDailyWords rnd cid st) = min ?W k + min ?N (k + 2 - min ?W k)"
    by (simp add: buildDailyWords_scope [OF assms(1)] length_shuffle lw)
  moreover have "length ?pool = ?W + ?N" using length_pool_split [of ?pool] by simp
  ultimately show ?thesis
    using quota_arith [of ?W k ?N] by (simp only: k add_diff_cancel_right')
qed

theorem buildDailyWords_length_witness:
  "''all'' \<noteq> ''wrong'' \<and> 2 \<le> dailyGoal (vocab_settings demo_state)
   \<and> distinct (map word_id (vocab_words demo_state))
   \<and> int (length (buildDailyWords rnd_half ''all'' demo_state)) = 4"
proof -
  have h2: "2 \<le> dailyGoal (vocab_settings demo_state)" by (simp add: demo_goal)
  have "length (filter (\<lambda>w. wrongCount w \<ge> 1) demo_words) = 3"
    "length (filter (\<lambda>w. wrongCount w = 0) demo_words) = 3"
    by (simp_all add: demo_words_def demo_word_def)
  then show ?thesis
    using h2 demo_distinct buildDailyWords_length [OF all_not_wrong h2 demo_distinct, of rnd_half]
    by (simp add: demo_scope_all demo_goal)
qed

theorem buildDailyWords_length_counterexample:
  "1 \<le> dailyGoal (vocab_settings quota_state)
   \<and> distinct (map word_id (vocab_words quota_state))
   \<and> dailyGoal (vocab_settings quota_state) \<le> int (length (scopeWords ''all'' quota_state))
   \<and> buildDailyWords rnd_zero ''all'' quota_state = [demo_word ''a'' ''c1'' 5 0 ''2024-03-01'']
   \<and> int (length (buildDailyWords rnd_zero ''all'' quota_state))
       \<noteq> dailyGoal (vocab_settings quota_state)"
  unfolding quota_state_all
  by (simp add: quota_state_def scopeWords_def getWords_def wrong_only_words_def demo_word_def)

lemma set_slice_0: "set (slice xs 0 e) \<subseteq> set xs"
  by (simp add: slice_0 set_take_subset)

lemma distinct_map_slice_0: "distinct (map f xs) \<Longrightarrow> distinct (map f (slice xs 0 e))"
  by (simp add: slice_0 take_map [symmetric] del: take_map)

lemma distinct_map_sort_key: "distinct (map g (sort_key f xs)) = distinct (map g xs)"
proof -
  have "mset (map g (sort_key f xs)) = mset (map g xs)" by simp
  then show ?thesis by (rule mset_eq_imp_distinct_iff)
qed

lemma distinct_map_shuffle: "distinct (map g (shuffle rnd xs)) = distinct (map g xs)"
proof -
  have "mset (map g (shuffle rnd xs)) = mset (map g xs)" by (simp add: mset_shuffle)
  then show ?thesis by (rule mset_eq_imp_distinct_iff)
qed

lemma distinct_wrongWords:
  "distinct (map word_id pool) \<Longrightarrow> distinct (map word_id (wrongWords g pool))"
  unfolding wrongWords_def sort_by_wrongCount
  by (intro distinct_map_slice_0) (simp add: distinct_map_sort_key distinct_map_filter)

lemma set_newWords:
  "set (newWords g pool)
     = {w \<in> set pool. wrongCount w = 0 \<and> word_id w \<notin> word_id ` set (wrongWords g pool)}"
  by (auto simp: newWords_def sort_by_createdAt)

lemma distinct_newWords:
  "distinct (map word_id pool) \<Longrightarrow> distinct (map word_id (newWords g pool))"
  unfolding newWords_def sort_by_createdAt
  by (simp add: distinct_map_sort_key distinct_map_filter)

lemma distinct_selected:
  assumes "distinct (map word_id pool)"
  shows "distinct (map word_id (wrongWords g pool @ slice (newWords g pool) 0 n))"
proof -
  let ?W = "wrongWords g pool" and ?S = "slice (newWords g pool) 0 n"
  have "set (map word_id ?W) \<inter> set (map word_id ?S) = {}"
  proof (rule ccontr)
    assume "set (map word_id ?W) \<inter> set (map word_id ?S) \<noteq> {}"
    then obtain i where i: "i \<in> set (map word_id ?W)" "i \<in> set (map word_id ?S)" by blast
    from i(2) obtain y where y: "y \<in> set ?S" "word_id y = i" by auto
    from y(1) have "y \<in> set (newWords g pool)" using set_slice_0 by fastforce
    then have "word_id y \<notin> set (map word_id ?W)" by (simp add: set_newWords)
    with i(1) y(2) show False by simp
  qed
  then show ?thesis
    using distinct_wrongWords [OF assms, of g]
      distinct_map_slice_0 [OF distinct_newWords [OF assms, of g], of n]
    by (simp only: map_append distinct_append)
qed

text \<open>
  Claim C9. For scope \<^verbatim>\<open>all\<close> or a category and a store whose word ids are unique,
  the words \<^verbatim>\<open>buildDailyWords\<close> returns have pairwise different ids, and each of them
  is a word of the pool of the scope. This holds for every \<^verbatim>\<open>dailyGoal\<close>.
\<close>

theorem buildDailyWords_distinct_in_pool:
  assumes "cid \<noteq> ''wrong''" and "distinct (map word_id (vocab_words st))"
  shows "distinct (map word_id (buildDailyWords rnd cid st))
       \<and> set (buildDailyWords rnd cid st) \<subseteq> set (scopeWords cid st)"
proof
  show "distinct (map word_id (buildDailyWords rnd cid st))"
    unfolding buildDailyWords_scope [OF assms(1)] distinct_map_shuffle
    using scopeWords_distinct [OF assms(2)] by (rule distinct_selected)
next
  let ?g = "dailyGoal (vocab_settings st)"
  let ?pool = "scopeWords cid st"
  have "set (wrongWords ?g ?pool) \<subseteq> set ?pool" using set_wrongWords [of ?g ?pool] by auto
  moreover have "set (slice (newWords ?g ?pool) 0 (newCount ?g ?pool)) \<subseteq> set ?pool"
    using set_slice_0 [of "newWords ?g ?pool" "newCount ?g ?pool"] by (auto simp: set_newWords)
  ultimately show "set (buildDailyWords rnd cid st) \<subseteq> set ?pool"
    by (simp add: buildDailyWords_scope [OF assms(1)] set_shuffle)
qed

theorem buildDailyWords_distinct_in_pool_witness:
  "''all'' \<noteq> ''wrong'' \<and> distinct (map word_id (vocab_words demo_state))
   \<and> distinct (map word_id (buildDailyWords rnd_half ''all'' demo_state))
   \<and> set (buildDailyWords rnd_half ''all'' demo_state) \<subseteq> set demo_words"
  using demo_distinct buildDailyWords_distinct_in_pool [OF all_not_wrong demo_distinct, of rnd_half]
  by (simp add: demo_scope_all)

text \<open>
  Claim C6 (wrong-mode purity). For scope \<^verbatim>\<open>wrong\<close> and \<^verbatim>\<open>dailyGoal \<ge> 1\<close>, every
  returned word is a stored word with \<^verbatim>\<open>wrongCount \<ge> 1\<close>, at most \<^verbatim>\<open>dailyGoal\<close> words
  are returned, and no returned word has \<^verbatim>\<open>wrongCount = 0\<close>.
\<close>

theorem buildDailyWords_wrong_scope:
  assumes "1 \<le> dailyGoal (vocab_settings st)"
  shows "(\<forall>w \<in> set (buildDailyWords rnd ''wrong'' st). wrongCount w \<ge> 1 \<and> w \<in> set (vocab_words st))
       \<and> int (length (buildDailyWords rnd ''wrong'' st)) \<le> dailyGoal (vocab_settings st)
       \<and> filter (\<lambda>w. wrongCount w = 0) (buildDailyWords rnd ''wrong'' st) = []"
proof -
  have sub: "set (buildDailyWords rnd ''wrong'' st) \<subseteq> {w \<in> set (vocab_words st). wrongCount w \<ge> 1}"
  proof -
    have "set (buildDailyWords rnd ''wrong'' st) \<subseteq> set (shuffle rnd (getWrongWords st))"
      unfolding buildDailyWords_wrong by (rule set_slice_0)
    also have "\<dots> = {w \<in> set (vocab_words st). wrongCount w \<ge> 1}"
      by (simp add: set_shuffle getWrongWords_def sort_by_wrongCount getWords_def)
    finally show ?thesis .
  qed
  have len: "int (length (buildDailyWords rnd ''wrong'' st)) \<le> dailyGoal (vocab_settings st)"
    using assms by (simp add: buildDailyWords_wrong slice_0)
  have "filter (\<lambda>w. wrongCount w = 0) (buildDailyWords rnd ''wrong'' st) = []"
    using sub by (auto simp: filter_empty_conv)
  with sub len show ?thesis by auto
qed

theorem buildDailyWords_wrong_scope_witness:
  "1 \<le> dailyGoal (vocab_settings demo_state)
   \<and> int (length (buildDailyWords rnd_half ''wrong'' demo_state)) \<le> 4
   \<and> filter (\<lambda>w. wrongCount w = 0) (buildDailyWords rnd_half ''wrong'' demo_state) = []
   \<and> length (buildDailyWords rnd_half ''wrong'' demo_state) = 3"
proof -
  have h: "1 \<le> dailyGoal (vocab_settings demo_state)" by (simp add: demo_goal)
  show ?thesis
    using h buildDailyWords_wrong_scope [OF h, of rnd_half]
    by (simp add: demo_goal demo_state_wrong)
qed

lemma mset_filter_shuffle: "mset (filter P (shuffle rnd xs)) = mset (filter P xs)"
  by (simp add: mset_shuffle)

lemma length_filter_shuffle: "length (filter P (shuffle rnd xs)) = length (filter P xs)"
  using mset_filter_shuffle [of P rnd xs] by (metis size_mset)

lemma filter_wrong_selected:
  "filter (\<lambda>w. wrongCount w \<ge> 1) (wrongWords g pool @ slice (newWords g pool) 0 n)
     = wrongWords g pool"
proof -
  have "\<forall>w \<in> set (wrongWords g pool). wrongCount w \<ge> 1" using set_wrongWords [of g pool] by auto
  moreover have "\<forall>w \<in> set (slice (newWords g pool) 0 n). \<not> wrongCount w \<ge> 1"
    using set_slice_0 [of "newWords g pool" n] set_newWords [of g pool] by fastforce
  ultimately show ?thesis by (simp add: filter_id_conv filter_empty_conv)
qed

lemma filter_new_selected:
  "filter (\<lambda>w. wrongCount w = 0) (wrongWords g pool @ slice (newWords g pool) 0 n)
     = slice (newWords g pool) 0 n"
proof -
  have "\<forall>w \<in> set (wrongWords g pool). \<not> wrongCount w = 0" using set_wrongWords [of g pool] by auto
  moreover have "\<forall>w \<in> set (slice (newWords g pool) 0 n). wrongCount w = 0"
    using set_slice_0 [of "newWords g pool" n] set_newWords [of g pool] by fastforce
  ultimately show ?thesis by (simp add: filter_id_conv filter_empty_conv)
qed

lemma sorted_take_drop_le:
  assumes "sorted (map f xs)" and "x \<in> set (take n xs)" and "y \<in> set (drop n xs)"
  shows "f x \<le> f y"
proof -
  have "sorted (map f (take n xs) @ map f (drop n xs))"
    using assms(1) by (simp flip: map_append)
  then show ?thesis using assms(2,3) by (auto simp: sorted_append)
qed

text \<open>
  Claim C7 (new-word floor). For scope \<^verbatim>\<open>all\<close> or a category, \<^verbatim>\<open>dailyGoal \<ge> 2\<close>, a
  store whose word ids are unique and whose \<^verbatim>\<open>createdAt\<close> are all dates
  \<^verbatim>\<open>YYYY-MM-DD\<close> (where \<^verbatim>\<open>localeCompare\<close> is the order of the dates), and a pool
  with at least two words of \<^verbatim>\<open>wrongCount = 0\<close>: at most \<^verbatim>\<open>dailyGoal - 2\<close> returned words are of the wrong pool, at
  least two returned words have \<^verbatim>\<open>wrongCount = 0\<close>, the returned words with
  \<^verbatim>\<open>wrongCount = 0\<close> are the first \<^verbatim>\<open>newCount\<close> of the pool's in ascending order of
  \<^verbatim>\<open>createdAt\<close>, and so each of them is at least as old as every word with
  \<^verbatim>\<open>wrongCount = 0\<close> of the pool that was left out.
\<close>

theorem buildDailyWords_new_floor:
  assumes "cid \<noteq> ''wrong''" and "2 \<le> dailyGoal (vocab_settings st)"
    and "distinct (map word_id (vocab_words st))"
    and "2 \<le> length (filter (\<lambda>w. wrongCount w = 0) (scopeWords cid st))"
    and "\<forall>w \<in> set (vocab_words st). iso_date (createdAt w)"
  shows "int (length (filter (\<lambda>w. wrongCount w \<ge> 1) (buildDailyWords rnd cid st)))
           \<le> dailyGoal (vocab_settings st) - 2
       \<and> 2 \<le> length (filter (\<lambda>w. wrongCount w = 0) (buildDailyWords rnd cid st))
       \<and> mset (filter (\<lambda>w. wrongCount w = 0) (buildDailyWords rnd cid st))
           = mset (take (nat (dailyGoal (vocab_settings st)
                    - int (length (filter (\<lambda>w. wrongCount w \<ge> 1) (buildDailyWords rnd cid st)))))
               (sort_by (\<lambda>a b. localeCompare (createdAt a) (createdAt b))
                  (filter (\<lambda>w. wrongCount w = 0) (scopeWords cid st))))
       \<and> (\<forall>x \<in> set (buildDailyWords rnd cid st). \<forall>y \<in> set (scopeWords cid st).
             wrongCount x = 0 \<and> wrongCount y = 0 \<and> y \<notin> set (buildDailyWords rnd cid st)
             \<longrightarrow> createdAt x \<le> createdAt y)"
proof -
  let ?g = "dailyGoal (vocab_settings st)"
  let ?pool = "scopeWords cid st"
  let ?res = "buildDailyWords rnd cid st"
  let ?S = "sort_key createdAt (filter (\<lambda>w. wrongCount w = 0) ?pool)"
  let ?n = "nat (newCount ?g ?pool)"
  have d: "distinct (map word_id ?pool)" using assms(3) by (rule scopeWords_distinct)
  have res: "?res = shuffle rnd (wrongWords ?g ?pool @ slice (newWords ?g ?pool) 0 (newCount ?g ?pool))"
    using assms(1) by (rule buildDailyWords_scope)
  have lw: "length (wrongWords ?g ?pool) \<le> nat (?g - 2)"
    using assms(2) by (simp add: wrongWords_take)
  have nc: "2 \<le> newCount ?g ?pool" using lw assms(2) by (simp add: newCount_def)
  have nw: "newWords ?g ?pool = ?S" using d by (rule newWords_distinct_ids)
  have sl: "slice (newWords ?g ?pool) 0 (newCount ?g ?pool) = take ?n ?S"
    using nc by (simp add: slice_0 nw)
  have fw: "length (filter (\<lambda>w. wrongCount w \<ge> 1) ?res) = length (wrongWords ?g ?pool)"
    by (simp only: res length_filter_shuffle filter_wrong_selected)
  have fn: "mset (filter (\<lambda>w. wrongCount w = 0) ?res) = mset (take ?n ?S)"
    by (simp only: res mset_filter_shuffle filter_new_selected) (simp only: sl)
  have c1: "int (length (filter (\<lambda>w. wrongCount w \<ge> 1) ?res)) \<le> ?g - 2"
    using lw assms(2) unfolding fw by simp
  have "length (filter (\<lambda>w. wrongCount w = 0) ?res) = length (take ?n ?S)"
    using fn by (metis size_mset)
  then have c2: "2 \<le> length (filter (\<lambda>w. wrongCount w = 0) ?res)"
    using nc assms(4) by simp
  have c3: "mset (filter (\<lambda>w. wrongCount w = 0) ?res)
      = mset (take (nat (?g - int (length (filter (\<lambda>w. wrongCount w \<ge> 1) ?res))))
          (sort_by (\<lambda>a b. localeCompare (createdAt a) (createdAt b))
             (filter (\<lambda>w. wrongCount w = 0) ?pool)))"
    unfolding fn fw sort_by_createdAt by (simp add: newCount_def)
  have c4: "createdAt x \<le> createdAt y"
    if x: "x \<in> set ?res" "wrongCount x = 0" and y: "y \<in> set ?pool" "wrongCount y = 0" "y \<notin> set ?res"
    for x y
  proof -
    have sres: "set ?res = set (wrongWords ?g ?pool) \<union> set (take ?n ?S)"
      unfolding res set_shuffle sl by simp
    have "x \<notin> set (wrongWords ?g ?pool)" using x(2) set_wrongWords [of ?g ?pool] by auto
    with x(1) sres have xin: "x \<in> set (take ?n ?S)" by simp
    have "y \<in> set ?S" using y(1,2) by simp
    then have "y \<in> set (take ?n ?S) \<union> set (drop ?n ?S)"
      by (simp only: set_append [symmetric] append_take_drop_id)
    with y(3) sres have yin: "y \<in> set (drop ?n ?S)" by simp
    have "sorted (map createdAt ?S)" by (rule sorted_sort_key)
    then show ?thesis using xin yin by (rule sorted_take_drop_le)
  qed
  from c1 c2 c3 c4 show ?thesis by blast
qed

theorem buildDailyWords_new_floor_witness:
  "''all'' \<noteq> ''wrong'' \<and> 2 \<le> dailyGoal (vocab_settings demo_state)
   \<and> distinct (map word_id (vocab_words demo_state))
   \<and> 2 \<le> length (filter (\<lambda>w. wrongCount w = 0) (scopeWords ''all'' demo_state))
   \<and> list_all (\<lambda>w. iso_date (createdAt w)) (vocab_words demo_state)
   \<and> 2 \<le> length (filter (\<lambda>w. wrongCount w = 0) (buildDailyWords rnd_half ''all'' demo_state))
   \<and> filter (\<lambda>w. wrongCount w = 0) (buildDailyWords rnd_half ''all'' demo_state)
       = [demo_word ''w5'' ''c1'' 0 0 ''2024-03-04'', demo_word ''w4'' ''c1'' 0 1 ''2024-03-03'']"
proof -
  have h2: "2 \<le> dailyGoal (vocab_settings demo_state)" by (simp add: demo_goal)
  have h4: "2 \<le> length (filter (\<lambda>w. wrongCount w = 0) (scopeWords ''all'' demo_state))"
    by (simp add: demo_scope_all demo_words_def demo_word_def)
  have dates: "list_all (\<lambda>w. iso_date (createdAt w)) (vocab_words demo_state)"
    by (simp add: demo_state_def demo_words_def demo_word_def iso_date_def is_digit_def)
  then have h5: "\<forall>w \<in> set (vocab_words demo_state). iso_date (createdAt w)"
    by (simp only: list_all_iff)
  have ev: "filter (\<lambda>w. wrongCount w = 0) (buildDailyWords rnd_half ''all'' demo_state)
       = [demo_word ''w5'' ''c1'' 0 0 ''2024-03-04'', demo_word ''w4'' ''c1'' 0 1 ''2024-03-03'']"
    unfolding demo_state_all by (simp add: demo_word_def)
  note th = buildDailyWords_new_floor [OF all_not_wrong h2 demo_distinct h4 h5, of rnd_half]
  from th [THEN conjunct2, THEN conjunct1]
  have "2 \<le> length (filter (\<lambda>w. wrongCount w = 0) (buildDailyWords rnd_half ''all'' demo_state))" .
  with h2 h4 dates ev demo_distinct all_not_wrong show ?thesis by (simp only: simp_thms)
qed

lemma buildDailyWords_wrong_first:
  assumes "cid \<noteq> ''wrong''" and "2 \<le> dailyGoal (vocab_settings st)"
  shows "mset (filter (\<lambda>w. wrongCount w \<ge> 1) (buildDailyWords rnd cid st))
     = mset (take (nat (dailyGoal (vocab_settings st) - 2))
         (sort_by (\<lambda>a b. int (wrongCount b) - int (wrongCount a))
            (filter (\<lambda>w. wrongCount w \<ge> 1) (scopeWords cid st))))"
proof -
  have "mset (filter (\<lambda>w. wrongCount w \<ge> 1) (buildDailyWords rnd cid st))
      = mset (wrongWords (dailyGoal (vocab_settings st)) (scopeWords cid st))"
    by (simp only: buildDailyWords_scope [OF assms(1)] mset_filter_shuffle filter_wrong_selected)
  then show ?thesis using assms(2) by (simp add: wrongWords_def slice_0)
qed

text \<open>
  Claim C2 (wrong-first). For \<^verbatim>\<open>dailyGoal \<ge> 2\<close> the returned words of the wrong pool
  are the first \<^verbatim>\<open>dailyGoal - 2\<close> in descending order of \<^verbatim>\<open>wrongCount\<close>, the lemma
  above. The claim also says that for \<^verbatim>\<open>dailyGoal < 2\<close> no word of the wrong pool is
  selected. For \<^verbatim>\<open>dailyGoal = 1\<close>, which the settings form accepts, \<^verbatim>\<open>maxWrong\<close> is
  \<open>-1\<close> and \<^verbatim>\<open>slice(0, -1)\<close> drops only the last word: with three words in the wrong
  pool the code returns two of them.
\<close>

theorem buildDailyWords_goal_one:
  "dailyGoal (vocab_settings goal_one_state) = 1
   \<and> distinct (map word_id (vocab_words goal_one_state))
   \<and> buildDailyWords rnd_zero ''all'' goal_one_state
       = [demo_word ''c'' ''c1'' 4 0 ''2024-03-03'', demo_word ''a'' ''c1'' 5 0 ''2024-03-01'']
   \<and> length (filter (\<lambda>w. wrongCount w \<ge> 1) (buildDailyWords rnd_zero ''all'' goal_one_state)) = 2"
  unfolding goal_one_state_all
  by (simp add: goal_one_state_def wrong_only_words_def demo_word_def)

section \<open>Counters of a word\<close>

lemma findIndex_None: "findIndex P xs = None \<longleftrightarrow> (\<forall>x \<in> set xs. \<not> P x)"
  by (induction xs) auto

lemma findIndex_Some:
  "findIndex P xs = Some i \<Longrightarrow> i < length xs \<and> P (xs ! i) \<and> (\<forall>j < i. \<not> P (xs ! j))"
proof (induction xs arbitrary: i)
  case Nil
  then show ?case by simp
next
  case (Cons x xs)
  show ?case
  proof (cases "P x")
    case True
    with Cons.prems show ?thesis by simp
  next
    case False
    with Cons.prems obtain k where k: "findIndex P xs = Some k" "i = Suc k" by auto
    from Cons.IH [OF k(1)] False k(2) show ?thesis by (auto simp: nth_Cons split: nat.splits)
  qed
qed

lemma find_findIndex:
  "find P xs = (case findIndex P xs of None \<Rightarrow> None | Some i \<Rightarrow> Some (xs ! i))"
  by (induction xs) (auto split: option.splits)

lemma findIndex_update:
  "findIndex P xs = Some i \<Longrightarrow> P v \<Longrightarrow> findIndex P (xs[i := v]) = Some i"
proof (induction xs arbitrary: i)
  case Nil
  then show ?case by simp
next
  case (Cons x xs)
  show ?case
  proof (cases "P x")
    case True
    with Cons.prems show ?thesis by simp
  next
    case False
    with Cons.prems obtain k where k: "findIndex P xs = Some k" "i = Suc k" by auto
    from Cons.IH [OF k(1) Cons.prems(2)] False k(2) show ?thesis by simp
  qed
qed

lemma getWordById_Some:
  "getWordById i st = Some w \<longleftrightarrow>
     (\<exists>idx. findIndex (\<lambda>w. word_id w = i) (vocab_words st) = Some idx \<and> vocab_words st ! idx = w)"
  by (auto simp: getWordById_def getWords_def find_findIndex split: option.splits)

lemma getWordById_None:
  "getWordById i st = None \<longleftrightarrow> findIndex (\<lambda>w. word_id w = i) (vocab_words st) = None"
  by (auto simp: getWordById_def getWords_def find_findIndex split: option.splits)

lemma markWrong_found:
  assumes "findIndex (\<lambda>w. word_id w = i) (vocab_words st) = Some idx"
  shows "markWrong i st = st\<lparr>vocab_words := (vocab_words st)
           [idx := (vocab_words st ! idx)\<lparr>wrongCount := wrongCount (vocab_words st ! idx) + 1,
                                           correctStreak := 0\<rparr>]\<rparr>"
  using assms by (simp add: markWrong_def getWords_def Let_def)

lemma markCorrect_found:
  assumes "findIndex (\<lambda>w. word_id w = i) (vocab_words st) = Some idx"
  shows "markCorrect i st = st\<lparr>vocab_words := (vocab_words st)
           [idx := (if wrongCount (vocab_words st ! idx) > 0
                       \<and> int (correctStreak (vocab_words st ! idx) + 1)
                           \<ge> graduationStreak (vocab_settings st)
                    then (vocab_words st ! idx)\<lparr>wrongCount := 0, correctStreak := 0\<rparr>
                    else (vocab_words st ! idx)\<lparr>correctStreak := correctStreak (vocab_words st ! idx) + 1\<rparr>)]\<rparr>"
  using assms by (simp add: markCorrect_def getWords_def Let_def)

lemma getWordById_update:
  assumes "findIndex (\<lambda>w. word_id w = i) (vocab_words st) = Some idx" and "word_id v = i"
  shows "getWordById i (st\<lparr>vocab_words := (vocab_words st)[idx := v]\<rparr>) = Some v"
proof -
  have "idx < length (vocab_words st)" using findIndex_Some [OF assms(1)] by simp
  then show ?thesis
    using findIndex_update [OF assms(1), of v] assms(2)
    by (simp add: getWordById_def getWords_def find_findIndex)
qed

lemma markWrong_getWordById:
  assumes "getWordById i st = Some w"
  shows "getWordById i (markWrong i st)
     = Some (w\<lparr>wrongCount := wrongCount w + 1, correctStreak := 0\<rparr>)"
proof -
  from assms obtain idx where idx: "findIndex (\<lambda>w. word_id w = i) (vocab_words st) = Some idx"
    "vocab_words st ! idx = w" by (auto simp: getWordById_Some)
  have "word_id w = i" using findIndex_Some [OF idx(1)] idx(2) by simp
  then show ?thesis
    unfolding markWrong_found [OF idx(1)] idx(2)
    by (intro getWordById_update [OF idx(1)]) simp
qed

lemma markCorrect_getWordById:
  assumes "getWordById i st = Some w"
  shows "getWordById i (markCorrect i st)
     = Some (if wrongCount w > 0 \<and> int (correctStreak w + 1) \<ge> graduationStreak (vocab_settings st)
             then w\<lparr>wrongCount := 0, correctStreak := 0\<rparr>
             else w\<lparr>correctStreak := correctStreak w + 1\<rparr>)"
proof -
  from assms obtain idx where idx: "findIndex (\<lambda>w. word_id w = i) (vocab_words st) = Some idx"
    "vocab_words st ! idx = w" by (auto simp: getWordById_Some)
  have "word_id w = i" using findIndex_Some [OF idx(1)] idx(2) by simp
  then show ?thesis
    unfolding markCorrect_found [OF idx(1)] idx(2)
    by (intro getWordById_update [OF idx(1)]) simp
qed

lemma markCorrect_settings: "vocab_settings (markCorrect i st) = vocab_settings st"
  by (simp add: markCorrect_def getWords_def Let_def split: option.splits)

lemma markCorrect_session: "session (markCorrect i st) = session st"
  by (simp add: markCorrect_def getWords_def Let_def split: option.splits)

lemma markWrong_session: "session (markWrong i st) = session st"
  by (simp add: markWrong_def getWords_def Let_def split: option.splits)

lemma markCorrect_log: "vocab_study_log (markCorrect i st) = vocab_study_log st"
  by (simp add: markCorrect_def getWords_def Let_def split: option.splits)

lemma markWrong_log: "vocab_study_log (markWrong i st) = vocab_study_log st"
  by (simp add: markWrong_def getWords_def Let_def split: option.splits)

lemma markCorrect_length: "length (vocab_words (markCorrect i st)) = length (vocab_words st)"
  by (simp add: markCorrect_def getWords_def Let_def split: option.splits)

lemma markWrong_length: "length (vocab_words (markWrong i st)) = length (vocab_words st)"
  by (simp add: markWrong_def getWords_def Let_def split: option.splits)

lemma vocab_words_recordStudy: "vocab_words (recordStudy today n cid st) = vocab_words st"
  by (simp add: recordStudy_def Let_def)

lemma vocab_words_next_card: "vocab_words (snd (next_card today st)) = vocab_words st"
  by (simp add: next_card_def Let_def finishSession_def vocab_words_recordStudy split: option.splits)

lemma vocab_words_push_result: "vocab_words (push_result i c st) = vocab_words st"
  by (simp add: push_result_def split: option.splits)

lemma answerWrong_words:
  "currentWord st = Some c \<Longrightarrow>
   vocab_words (snd (answerWrong today st)) = vocab_words (markWrong (word_id c) st)"
  by (auto simp: answerWrong_def currentWord_def vocab_words_next_card vocab_words_push_result
      split: option.splits)

lemma answerCorrect_words:
  "currentWord st = Some c \<Longrightarrow>
   vocab_words (snd (answerCorrect today st)) = vocab_words (markCorrect (word_id c) st)"
  by (auto simp: answerCorrect_def currentWord_def vocab_words_next_card vocab_words_push_result
      split: option.splits)

lemma getWordById_cong: "vocab_words a = vocab_words b \<Longrightarrow> getWordById i a = getWordById i b"
  by (simp add: getWordById_def getWords_def)

text \<open>
  Claim C4 (streak reset). For a word \<open>w\<close> the store holds under the id \<open>i\<close>,
  \<^verbatim>\<open>markWrong\<close> leaves it with \<^verbatim>\<open>wrongCount\<close> one higher and \<^verbatim>\<open>correctStreak = 0\<close>,
  whatever the streak was; and \<^verbatim>\<open>answerWrong\<close> on a session whose current card has the
  id \<open>i\<close> does this to the store.
\<close>

theorem answerWrong_counters:
  assumes "getWordById i st = Some w"
  shows "getWordById i (markWrong i st)
           = Some (w\<lparr>wrongCount := wrongCount w + 1, correctStreak := 0\<rparr>)
       \<and> (\<forall>c. currentWord st = Some c \<and> word_id c = i \<longrightarrow>
             getWordById i (snd (answerWrong today st))
               = Some (w\<lparr>wrongCount := wrongCount w + 1, correctStreak := 0\<rparr>))"
proof -
  have "getWordById i (snd (answerWrong today st)) = getWordById i (markWrong i st)"
    if "currentWord st = Some c" "word_id c = i" for c
    using getWordById_cong [OF answerWrong_words [OF that(1), of today], of i] that(2) by simp
  then show ?thesis using markWrong_getWordById [OF assms] by auto
qed

theorem answerWrong_counters_witness:
  "getWordById ''w1'' demo_state = Some (demo_word ''w1'' ''c1'' 2 0 ''2024-03-01'')
   \<and> getWordById ''w1'' (markWrong ''w1'' demo_state)
       = Some (demo_word ''w1'' ''c1'' 3 0 ''2024-03-01'')"
  using demo_getWordById_w1 answerWrong_counters [OF demo_getWordById_w1, of "''2024-03-10''"]
  by (simp add: demo_word_def)

lemma markCorrect_iter_below:
  assumes "getWordById i st = Some w" and "0 < wrongCount w" and "correctStreak w = 0"
    and "int k < graduationStreak (vocab_settings st)"
  shows "getWordById i ((markCorrect i ^^ k) st) = Some (w\<lparr>correctStreak := k\<rparr>)
       \<and> vocab_settings ((markCorrect i ^^ k) st) = vocab_settings st"
  using assms(4)
proof (induction k)
  case 0
  then show ?case using assms(1,3) by simp
next
  case (Suc k)
  then have IH: "getWordById i ((markCorrect i ^^ k) st) = Some (w\<lparr>correctStreak := k\<rparr>)"
    "vocab_settings ((markCorrect i ^^ k) st) = vocab_settings st" by simp_all
  show ?case
    using markCorrect_getWordById [OF IH(1)] Suc.prems IH(2)
    by (simp add: markCorrect_settings)
qed

text \<open>
  Claim C3 (graduation). For a stored word with \<^verbatim>\<open>wrongCount > 0\<close> and
  \<^verbatim>\<open>correctStreak = 0\<close> and \<^verbatim>\<open>graduationStreak \<ge> 1\<close>: after \<open>k\<close> correct answers in a
  row, \<open>k\<close> below \<^verbatim>\<open>graduationStreak\<close>, only \<^verbatim>\<open>correctStreak\<close> has changed, to \<open>k\<close>;
  the correct answer number \<^verbatim>\<open>graduationStreak\<close> sets both counters to 0. In any
  state, a correct answer that does not meet the graduation condition adds one to
  \<^verbatim>\<open>correctStreak\<close> and changes nothing else of the word. \<^verbatim>\<open>answerCorrect\<close> on a
  session whose current card has the id \<open>i\<close> changes the store as \<^verbatim>\<open>markCorrect\<close> does.
\<close>

theorem markCorrect_graduation:
  assumes "getWordById i st = Some w" and "0 < wrongCount w" and "correctStreak w = 0"
    and "1 \<le> graduationStreak (vocab_settings st)"
  shows "(\<forall>k. int k < graduationStreak (vocab_settings st) \<longrightarrow>
            getWordById i ((markCorrect i ^^ k) st) = Some (w\<lparr>correctStreak := k\<rparr>))
       \<and> getWordById i ((markCorrect i ^^ nat (graduationStreak (vocab_settings st))) st)
           = Some (w\<lparr>wrongCount := 0, correctStreak := 0\<rparr>)
       \<and> (\<forall>st' w'. getWordById i st' = Some w'
             \<and> \<not> (0 < wrongCount w'
                   \<and> graduationStreak (vocab_settings st') \<le> int (correctStreak w' + 1)) \<longrightarrow>
             getWordById i (markCorrect i st') = Some (w'\<lparr>correctStreak := correctStreak w' + 1\<rparr>))
       \<and> (\<forall>c. currentWord st = Some c \<and> word_id c = i \<longrightarrow>
             vocab_words (snd (answerCorrect today st)) = vocab_words (markCorrect i st))"
proof -
  let ?G = "graduationStreak (vocab_settings st)"
  define n where "n = nat (?G - 1)"
  have G: "?G = int (Suc n)" using assms(4) by (simp add: n_def)
  have below: "getWordById i ((markCorrect i ^^ k) st) = Some (w\<lparr>correctStreak := k\<rparr>)"
    if "int k < ?G" for k
    using markCorrect_iter_below [OF assms(1-3) that] by simp
  have "int n < ?G" using G by simp
  from markCorrect_iter_below [OF assms(1-3) this]
  have "getWordById i (markCorrect i ((markCorrect i ^^ n) st))
      = Some (w\<lparr>wrongCount := 0, correctStreak := 0\<rparr>)"
    using markCorrect_getWordById [of i "(markCorrect i ^^ n) st" "w\<lparr>correctStreak := n\<rparr>"]
      assms(2) G by simp
  moreover have "nat ?G = Suc n" using G by simp
  ultimately have top: "getWordById i ((markCorrect i ^^ nat ?G) st)
      = Some (w\<lparr>wrongCount := 0, correctStreak := 0\<rparr>)"
    by (simp only: funpow.simps o_apply)
  have step: "getWordById i (markCorrect i st') = Some (w'\<lparr>correctStreak := correctStreak w' + 1\<rparr>)"
    if "getWordById i st' = Some w'"
      "\<not> (0 < wrongCount w' \<and> graduationStreak (vocab_settings st') \<le> int (correctStreak w' + 1))"
    for st' w'
    using markCorrect_getWordById [OF that(1)] that(2) by auto
  have link: "vocab_words (snd (answerCorrect today st)) = vocab_words (markCorrect i st)"
    if "currentWord st = Some c" "word_id c = i" for c
    using answerCorrect_words [OF that(1), of today] that(2) by simp
  from below top step link show ?thesis by blast
qed

theorem markCorrect_graduation_witness:
  "getWordById ''w1'' demo_state = Some (demo_word ''w1'' ''c1'' 2 0 ''2024-03-01'')
   \<and> 0 < wrongCount (demo_word ''w1'' ''c1'' 2 0 ''2024-03-01'')
   \<and> correctStreak (demo_word ''w1'' ''c1'' 2 0 ''2024-03-01'') = 0
   \<and> 1 \<le> graduationStreak (vocab_settings demo_state)
   \<and> getWordById ''w1'' (markCorrect ''w1'' (markCorrect ''w1'' demo_state))
       = Some (demo_word ''w1'' ''c1'' 2 2 ''2024-03-01'')
   \<and> getWordById ''w1'' (markCorrect ''w1'' (markCorrect ''w1'' (markCorrect ''w1'' demo_state)))
       = Some (demo_word ''w1'' ''c1'' 0 0 ''2024-03-01'')"
proof -
  have h2: "0 < wrongCount (demo_word ''w1'' ''c1'' 2 0 ''2024-03-01'')"
    and h3: "correctStreak (demo_word ''w1'' ''c1'' 2 0 ''2024-03-01'') = 0"
    by (simp_all add: demo_word_def)
  have h4: "1 \<le> graduationStreak (vocab_settings demo_state)" by (simp add: demo_state_def)
  have G: "graduationStreak (vocab_settings demo_state) = 3" by (simp add: demo_state_def)
  note th = markCorrect_graduation [OF demo_getWordById_w1 h2 h3 h4, of "''2024-03-10''"]
  have "int 2 < graduationStreak (vocab_settings demo_state)" by (simp add: G)
  from th [THEN conjunct1, rule_format, OF this]
  have two: "getWordById ''w1'' ((markCorrect ''w1'' ^^ 2) demo_state)
       = Some ((demo_word ''w1'' ''c1'' 2 0 ''2024-03-01'')\<lparr>correctStreak := 2\<rparr>)" .
  from th [THEN conjunct2, THEN conjunct1]
  have three: "getWordById ''w1'' ((markCorrect ''w1'' ^^ 3) demo_state)
       = Some ((demo_word ''w1'' ''c1'' 2 0 ''2024-03-01'')\<lparr>wrongCount := 0, correctStreak := 0\<rparr>)"
    by (simp add: G)
  have "getWordById ''w1'' (markCorrect ''w1'' (markCorrect ''w1'' demo_state))
       = Some (demo_word ''w1'' ''c1'' 2 2 ''2024-03-01'')"
    using two by (simp add: numeral_2_eq_2 demo_word_def)
  moreover have "getWordById ''w1'' (markCorrect ''w1'' (markCorrect ''w1'' (markCorrect ''w1'' demo_state)))
       = Some (demo_word ''w1'' ''c1'' 0 0 ''2024-03-01'')"
    using three by (simp add: numeral_3_eq_3 demo_word_def)
  ultimately show ?thesis
    using demo_getWordById_w1 h2 h3 h4 by (simp only: simp_thms)
qed

text \<open>
  Claim C10 (frame). With an id the store does not hold, \<^verbatim>\<open>markCorrect\<close> and
  \<^verbatim>\<open>markWrong\<close> return the state as it was. With an id found at index \<open>idx\<close>, the
  study log, the settings, the session, the number of words and every word at
  another index are as before, and the word at \<open>idx\<close> keeps every field but
  \<^verbatim>\<open>wrongCount\<close> and \<^verbatim>\<open>correctStreak\<close>.
\<close>

theorem mark_frame:
  "(getWordById i st = None \<longrightarrow> markCorrect i st = st \<and> markWrong i st = st)
   \<and> (\<forall>idx. findIndex (\<lambda>w. word_id w = i) (vocab_words st) = Some idx \<longrightarrow>
         only_word_changed idx st (markCorrect i st) \<and> only_word_changed idx st (markWrong i st))"
proof -
  have a: "markCorrect i st = st \<and> markWrong i st = st" if "getWordById i st = None"
    using that by (simp add: getWordById_None markCorrect_def markWrong_def getWords_def)
  have b: "only_word_changed idx st (markCorrect i st) \<and> only_word_changed idx st (markWrong i st)"
    if f: "findIndex (\<lambda>w. word_id w = i) (vocab_words st) = Some idx" for idx
  proof -
    have "idx < length (vocab_words st)" using findIndex_Some [OF f] by simp
    then show ?thesis
      unfolding markCorrect_found [OF f] markWrong_found [OF f]
      by (simp add: only_word_changed_def same_except_counters_def)
  qed
  from a b show ?thesis by blast
qed

theorem mark_frame_witness:
  "getWordById ''zz'' demo_state = None
   \<and> markCorrect ''zz'' demo_state = demo_state \<and> markWrong ''zz'' demo_state = demo_state
   \<and> findIndex (\<lambda>w. word_id w = ''w3'') (vocab_words demo_state) = Some 2
   \<and> only_word_changed 2 demo_state (markCorrect ''w3'' demo_state)
   \<and> only_word_changed 2 demo_state (markWrong ''w3'' demo_state)"
proof -
  have n: "getWordById ''zz'' demo_state = None"
    by (simp add: getWordById_def getWords_def demo_state_def demo_words_def demo_word_def)
  have f: "findIndex (\<lambda>w. word_id w = ''w3'') (vocab_words demo_state) = Some 2"
    by (simp add: demo_state_def demo_words_def demo_word_def)
  note absent = mark_frame [of "''zz''" demo_state, THEN conjunct1, rule_format, OF n]
  note present = mark_frame [of "''w3''" demo_state, THEN conjunct2, rule_format, OF f]
  from n f absent present show ?thesis by (simp only: simp_thms)
qed

section \<open>Sessions\<close>

lemma recordStudy_log:
  "vocab_study_log (recordStudy today n cid st) =
     (vocab_study_log st)(today \<mapsto>
        (case vocab_study_log st today of
           None \<Rightarrow> \<lparr>log_count = n, log_categoryId = cid\<rparr>
         | Some e \<Rightarrow> \<lparr>log_count = log_count e + n,
                      log_categoryId = (if log_categoryId e \<noteq> [] then log_categoryId e else cid)\<rparr>))"
  by (simp add: recordStudy_def Let_def split: option.splits)

lemma recordStudy_frame:
  "vocab_words (recordStudy today n cid st) = vocab_words st
   \<and> vocab_settings (recordStudy today n cid st) = vocab_settings st
   \<and> session (recordStudy today n cid st) = session st"
  by (simp add: recordStudy_def Let_def)

lemma answer_done:
  assumes "session st = Some s" and "length (words s) \<le> currentIndex s"
  shows "answerCorrect today st = (None, st)" and "answerWrong today st = (None, st)"
  using assms by (simp_all add: answerCorrect_def answerWrong_def currentWord_def)

lemma answers_done:
  assumes "session st = Some s" and "length (words s) \<le> currentIndex s"
  shows "answers today bs st = st"
  by (induction bs) (simp_all add: answer_done [OF assms])

lemma answer_step:
  assumes "session st = Some s" and "currentIndex s < length (words s)"
  shows "session (snd (if b then answerCorrect today st else answerWrong today st))
           = Some (s\<lparr>results := results s @ [\<lparr>wordId = word_id (words s ! currentIndex s), correct = b\<rparr>],
                     isFlipped := False, currentIndex := currentIndex s + 1\<rparr>)"
    and "vocab_study_log (snd (if b then answerCorrect today st else answerWrong today st)) =
           (if length (words s) \<le> currentIndex s + 1
            then vocab_study_log (recordStudy today (length (results s) + 1) (session_categoryId s) st)
            else vocab_study_log st)"
    and "fst (if b then answerCorrect today st else answerWrong today st)
           = Some \<lparr>done_flag = (length (words s) \<le> currentIndex s + 1),
                   index = currentIndex s + 1, total = length (words s)\<rparr>"
  using assms
  by (simp_all add: answerCorrect_def answerWrong_def currentWord_def push_result_def
      next_card_def finishSession_def Let_def markCorrect_session markWrong_session
      markCorrect_log markWrong_log recordStudy_log recordStudy_frame)

lemma answers_run:
  assumes "session st = Some s" and "currentIndex s = length (results s)"
    and "currentIndex s < length (words s)"
  shows "vocab_study_log (answers today bs st) =
           (if length bs < length (words s) - currentIndex s then vocab_study_log st
            else vocab_study_log (recordStudy today (length (words s)) (session_categoryId s) st))
       \<and> (\<exists>s'. session (answers today bs st) = Some s'
             \<and> words s' = words s
             \<and> currentIndex s' = min (currentIndex s + length bs) (length (words s))
             \<and> length (results s') = currentIndex s')"
  using assms
proof (induction bs arbitrary: st s)
  case Nil
  then show ?case by simp
next
  case (Cons b bs)
  let ?st' = "snd (if b then answerCorrect today st else answerWrong today st)"
  let ?s' = "s\<lparr>results := results s @ [\<lparr>wordId = word_id (words s ! currentIndex s), correct = b\<rparr>],
                isFlipped := False, currentIndex := currentIndex s + 1\<rparr>"
  note step = answer_step [OF Cons.prems(1,3), of b today]
  have run: "answers today (b # bs) st = answers today bs ?st'" by simp
  show ?case
  proof (cases "length (words s) \<le> currentIndex s + 1")
    case True
    have fin: "answers today bs ?st' = ?st'"
      using step(1) True by (intro answers_done [of _ ?s']) simp_all
    have eq: "length (words s) = Suc (length (results s))" using True Cons.prems(2,3) by simp
    have k: "currentIndex s = length (results s)" by (rule Cons.prems(2))
    show ?thesis
      unfolding run fin using step(1,2) by (simp add: eq k)
  next
    case False
    have IH: "vocab_study_log (answers today bs ?st') =
           (if length bs < length (words ?s') - currentIndex ?s' then vocab_study_log ?st'
            else vocab_study_log (recordStudy today (length (words ?s')) (session_categoryId ?s') ?st'))
       \<and> (\<exists>s''. session (answers today bs ?st') = Some s''
             \<and> words s'' = words ?s'
             \<and> currentIndex s'' = min (currentIndex ?s' + length bs) (length (words ?s'))
             \<and> length (results s'') = currentIndex s'')"
      using step(1) False Cons.prems(2) by (intro Cons.IH) simp_all
    have log: "vocab_study_log ?st' = vocab_study_log st" using step(2) False by simp
    have "length bs < length (words s) - (currentIndex s + 1)
       \<longleftrightarrow> length (b # bs) < length (words s) - currentIndex s" using False by auto
    then show ?thesis
      unfolding run using IH log by (simp add: recordStudy_log)
  qed
qed

text \<open>
  Claim C5 (one commit per session). From a session as \<^verbatim>\<open>startSession\<close> leaves it
  (index 0, no results, at least one word), any run of answers shorter than the
  session leaves the study log as it was; any run at least as long as the session
  leaves the log as one call of \<^verbatim>\<open>recordStudy\<close> with count \<open>|words| = |results|\<close>
  leaves it, since every answer after the last card returns \<^verbatim>\<open>null\<close> and changes
  nothing. That one call adds the count to an entry of the same day and keeps the
  category id of the entry (a category id is never the empty string), writes a
  fresh entry when the day has none, and leaves every other day alone.
\<close>

theorem session_commit_once:
  assumes "session st = Some s" and "currentIndex s = 0" and "results s = []"
    and "words s \<noteq> []"
  shows "(length bs < length (words s) \<longrightarrow>
            vocab_study_log (answers today bs st) = vocab_study_log st)
       \<and> (length (words s) \<le> length bs \<longrightarrow>
            vocab_study_log (answers today bs st)
              = vocab_study_log (recordStudy today (length (words s)) (session_categoryId s) st)
            \<and> (\<exists>s'. session (answers today bs st) = Some s'
                  \<and> currentIndex s' = length (words s')
                  \<and> length (results s') = length (words s)
                  \<and> answerCorrect today (answers today bs st) = (None, answers today bs st)
                  \<and> answerWrong today (answers today bs st) = (None, answers today bs st)))
       \<and> (\<forall>e. vocab_study_log st today = Some e \<and> log_categoryId e \<noteq> [] \<longrightarrow>
            vocab_study_log (recordStudy today (length (words s)) (session_categoryId s) st) today
              = Some \<lparr>log_count = log_count e + length (words s),
                      log_categoryId = log_categoryId e\<rparr>)
       \<and> (vocab_study_log st today = None \<longrightarrow>
            vocab_study_log (recordStudy today (length (words s)) (session_categoryId s) st) today
              = Some \<lparr>log_count = length (words s), log_categoryId = session_categoryId s\<rparr>)
       \<and> (\<forall>d. d \<noteq> today \<longrightarrow>
            vocab_study_log (recordStudy today (length (words s)) (session_categoryId s) st) d
              = vocab_study_log st d)"
proof -
  have idx: "currentIndex s = length (results s)" "currentIndex s < length (words s)"
    using assms(2-4) by simp_all
  note run = answers_run [OF assms(1) idx, of today bs]
  have a: "vocab_study_log (answers today bs st) = vocab_study_log st"
    if "length bs < length (words s)"
    using run that assms(2) by simp
  have b: "vocab_study_log (answers today bs st)
              = vocab_study_log (recordStudy today (length (words s)) (session_categoryId s) st)
            \<and> (\<exists>s'. session (answers today bs st) = Some s'
                  \<and> currentIndex s' = length (words s')
                  \<and> length (results s') = length (words s)
                  \<and> answerCorrect today (answers today bs st) = (None, answers today bs st)
                  \<and> answerWrong today (answers today bs st) = (None, answers today bs st))"
    if le: "length (words s) \<le> length bs"
  proof -
    from run obtain s' where s': "session (answers today bs st) = Some s'" "words s' = words s"
      "currentIndex s' = min (currentIndex s + length bs) (length (words s))"
      "length (results s') = currentIndex s'" by blast
    have ci: "currentIndex s' = length (words s')" using s'(2,3) le assms(2) by simp
    have "answerCorrect today (answers today bs st) = (None, answers today bs st)"
      "answerWrong today (answers today bs st) = (None, answers today bs st)"
      using answer_done [OF s'(1), of today] ci by simp_all
    moreover have "vocab_study_log (answers today bs st)
              = vocab_study_log (recordStudy today (length (words s)) (session_categoryId s) st)"
      using run le assms(2) by simp
    ultimately show ?thesis using s' ci by simp
  qed
  have c: "vocab_study_log (recordStudy today n cid st) today
              = Some \<lparr>log_count = log_count e + n, log_categoryId = log_categoryId e\<rparr>"
    if "vocab_study_log st today = Some e" "log_categoryId e \<noteq> []" for e n cid
    using that by (simp add: recordStudy_log)
  have d: "vocab_study_log (recordStudy today n cid st) today
              = Some \<lparr>log_count = n, log_categoryId = cid\<rparr>"
    if "vocab_study_log st today = None" for n cid
    using that by (simp add: recordStudy_log)
  have e: "vocab_study_log (recordStudy today n cid st) d = vocab_study_log st d"
    if "d \<noteq> today" for d n cid
    using that by (simp add: recordStudy_log)
  from a b c d e show ?thesis by blast
qed

theorem session_commit_once_witness:
  "session demo_active_state = Some demo_session
   \<and> currentIndex demo_session = 0 \<and> results demo_session = [] \<and> words demo_session \<noteq> []
   \<and> vocab_study_log (answers ''2024-03-10'' [True] demo_active_state)
       = vocab_study_log demo_active_state
   \<and> vocab_study_log (answers ''2024-03-10'' [True, False] demo_active_state) ''2024-03-10''
       = Some \<lparr>log_count = 7, log_categoryId = ''c1''\<rparr>
   \<and> vocab_study_log (answers ''2024-03-10'' [True, False, True] demo_active_state) ''2024-03-10''
       = Some \<lparr>log_count = 7, log_categoryId = ''c1''\<rparr>"
proof -
  have h2: "currentIndex demo_session = 0" and h3: "results demo_session = []"
    and h4: "words demo_session \<noteq> []" and len: "length (words demo_session) = 2"
    by (simp_all add: demo_session_def)
  have e: "vocab_study_log demo_active_state ''2024-03-10''
      = Some \<lparr>log_count = 5, log_categoryId = ''c1''\<rparr>"
    by (simp add: demo_active_state_def demo_state_def)
  note th = session_commit_once [OF demo_active_session h2 h3 h4, of _ "''2024-03-10''"]
  have a: "vocab_study_log (answers ''2024-03-10'' [True] demo_active_state)
       = vocab_study_log demo_active_state"
    by (rule th [of "[True]", THEN conjunct1, rule_format]) (simp add: len)
  have c: "vocab_study_log (recordStudy ''2024-03-10'' (length (words demo_session))
             (session_categoryId demo_session) demo_active_state) ''2024-03-10''
       = Some \<lparr>log_count = 7, log_categoryId = ''c1''\<rparr>"
    using th [of "[]", THEN conjunct2, THEN conjunct2, THEN conjunct1, rule_format,
        of "\<lparr>log_count = 5, log_categoryId = ''c1''\<rparr>"] e
    by (simp add: len)
  have "length (words demo_session) \<le> length [True, False]" by (simp add: len)
  from th [of "[True, False]", THEN conjunct2, THEN conjunct1, rule_format, OF this, THEN conjunct1]
  have b: "vocab_study_log (answers ''2024-03-10'' [True, False] demo_active_state) ''2024-03-10''
       = Some \<lparr>log_count = 7, log_categoryId = ''c1''\<rparr>"
    using c by (simp only:)
  have "length (words demo_session) \<le> length [True, False, True]" by (simp add: len)
  from th [of "[True, False, True]", THEN conjunct2, THEN conjunct1, rule_format, OF this,
      THEN conjunct1]
  have b': "vocab_study_log (answers ''2024-03-10'' [True, False, True] demo_active_state) ''2024-03-10''
       = Some \<lparr>log_count = 7, log_categoryId = ''c1''\<rparr>"
    using c by (simp only:)
  from demo_active_session h2 h3 h4 a b b' show ?thesis by (simp only: simp_thms)
qed



end
